theory Spec2Isabelle
  imports Main "HOL-Library.AList"
begin

section \<open>JavaScript values\<close>

text \<open>
  The program handles untyped JavaScript values: the candidate configuration that
  \<open>validateConfig\<close> inspects, the records that the apps contribute, and the composed
  globals. A value is a primitive, a function, an array or an object with its own
  properties in insertion order. Numbers are restricted to integers. A function value
  carries its \<open>name\<close> property and an index into the table of functions of the host.
  An object is either a plain record (\<open>{...}\<close>, prototype \<open>Object.prototype\<close>) or an
  instance of a class, as the logger of \<open>loglevel\<close> is.
\<close>

datatype objkind = Plain | Instance string

datatype jsval =
    Undefined
  | Null
  | Bool bool
  | Num int
  | Str string
  | Fn string nat
  | Builtin string
  | Arr "jsval list"
  | Obj objkind "(string \<times> jsval) list"

datatype js_error = Error string | TypeError string

type_synonym 'a result = "js_error + 'a"

definition nullish :: "jsval \<Rightarrow> bool" where
  "nullish v = (v = Undefined \<or> v = Null)"

fun truthy :: "jsval \<Rightarrow> bool" where
  "truthy Undefined = False"
| "truthy Null = False"
| "truthy (Bool b) = b"
| "truthy (Num n) = (n \<noteq> 0)"
| "truthy (Str s) = (s \<noteq> [])"
| "truthy _ = True"

fun typeof :: "jsval \<Rightarrow> string" where
  "typeof Undefined = ''undefined''"
| "typeof Null = ''object''"
| "typeof (Bool b) = ''boolean''"
| "typeof (Num n) = ''number''"
| "typeof (Str s) = ''string''"
| "typeof (Fn nm i) = ''function''"
| "typeof (Builtin nm) = (if nm = ''__proto__'' then ''object'' else ''function'')"
| "typeof (Arr xs) = ''object''"
| "typeof (Obj kd ps) = ''object''"

fun isArray :: "jsval \<Rightarrow> bool" where
  "isArray (Arr xs) = True"
| "isArray _ = False"

text \<open>
  The members that every object inherits from \<open>Object.prototype\<close>. A property read
  \<open>o[k]\<close> that finds no own property \<open>k\<close> finds these; \<open>k in o\<close> holds for them.
\<close>

definition object_prototype_keys :: "string list" where
  "object_prototype_keys =
     [''constructor'', ''__defineGetter__'', ''__defineSetter__'', ''hasOwnProperty'',
      ''__lookupGetter__'', ''__lookupSetter__'', ''isPrototypeOf'',
      ''propertyIsEnumerable'', ''toString'', ''valueOf'', ''__proto__'',
      ''toLocaleString'']"

definition inherited :: "string \<Rightarrow> jsval" where
  "inherited k = (if k \<in> set object_prototype_keys then Builtin k else Undefined)"

definition own_or_inherited :: "(string \<times> jsval) list \<Rightarrow> string \<Rightarrow> jsval" where
  "own_or_inherited ps k = (case map_of ps k of Some v \<Rightarrow> v | None \<Rightarrow> inherited k)"

definition key_in :: "string \<Rightarrow> (string \<times> jsval) list \<Rightarrow> bool" where
  "key_in k ps = (map_of ps k \<noteq> None \<or> k \<in> set object_prototype_keys)"

text \<open>
  The property read \<open>v[k]\<close> on a value that is neither \<open>null\<close> nor \<open>undefined\<close>.
  On an object it is the own property or the inherited member. On the other values it
  is given for the property names that this program reads from a value of unknown shape
  (\<open>environment\<close>, \<open>systemName\<close>, the root namespace, \<open>apps\<close>, \<open>layerOrder\<close>,
  \<open>logLevel\<close>, \<open>logFormat\<close>, \<open>name\<close>, \<open>globals\<close>, \<open>create\<close>, \<open>default\<close>): of these a
  function has \<open>name\<close>, and primitives and arrays have none.
\<close>

fun js_get :: "jsval \<Rightarrow> string \<Rightarrow> jsval" where
  "js_get (Obj kd ps) k = own_or_inherited ps k"
| "js_get (Fn nm i) k = (if k = ''name'' then Str nm else Undefined)"
| "js_get (Builtin nm) k =
     (if k = ''name'' \<and> nm \<noteq> ''__proto__'' then Str nm else Undefined)"
| "js_get _ k = Undefined"

text \<open>A read that throws on \<open>null\<close> and \<open>undefined\<close>, as the engine does. The
  messages of a \<open>TypeError\<close> are the engine's; what the program depends on is that one
  is thrown.\<close>

definition js_read :: "jsval \<Rightarrow> string \<Rightarrow> jsval result" where
  "js_read v k =
     (if v = Undefined then
        Inl (TypeError (''Cannot read properties of undefined (reading '' @ [CHR 0x27] @ k @ [CHR 0x27] @ '')''))
      else if v = Null then
        Inl (TypeError (''Cannot read properties of null (reading '' @ [CHR 0x27] @ k @ [CHR 0x27] @ '')''))
      else Inr (js_get v k))"

section \<open>The lodash functions the program calls\<close>

subsection \<open>get\<close>

text \<open>
  \<open>get(object, path)\<close> of lodash, by its documented contract: the path string is cut at
  its dots and the keys are read one after the other; the walk stops with \<open>undefined\<close>
  as soon as it stands on \<open>null\<close> or \<open>undefined\<close>. The paths of this program hold no
  brackets. (lodash reads a path as one key when the object has a property of that very
  name; no path of this program is meant that way, and that case is left out.)
\<close>

fun split_dots_acc :: "string \<Rightarrow> string \<Rightarrow> string list" where
  "split_dots_acc cur [] = [rev cur]"
| "split_dots_acc cur (c # cs) =
     (if c = CHR ''.'' then rev cur # split_dots_acc [] cs else split_dots_acc (c # cur) cs)"

definition stringToPath :: "string \<Rightarrow> string list" where
  "stringToPath p = split_dots_acc [] p"

fun baseGet :: "jsval \<Rightarrow> string list \<Rightarrow> jsval" where
  "baseGet v [] = v"
| "baseGet v (k # ks) = (if nullish v then Undefined else baseGet (js_get v k) ks)"

definition lodash_get :: "jsval \<Rightarrow> string \<Rightarrow> jsval" where
  "lodash_get obj path = (if nullish obj then Undefined else baseGet obj (stringToPath path))"

subsection \<open>merge\<close>

text \<open>
  \<open>merge(object, source)\<close> of lodash, by its documented contract: the own enumerable
  properties of the source are merged into the destination, which is mutated and
  returned. Source properties that resolve to \<open>undefined\<close> are skipped if a destination
  value exists. Array and plain object properties are merged recursively. Other objects
  (functions, class instances) and value types are overridden by assignment. A source
  array or plain record whose destination value cannot take the merge is merged into a
  fresh array or record, so the result shares no array or plain record with the source.

  Both values of a key are read through \<open>safeGet\<close>, the guard of lodash 4.17 against
  prototype pollution: it reads nothing under the key \<open>__proto__\<close>, and nothing under
  \<open>constructor\<close> where a function stands. A source value that the guard hides is
  merged as \<open>undefined\<close>.

  The functions below compute the content of the destination after the call. One case
  leaves this value model: a plain record merged into an existing array adds named
  properties to the array object; the model keeps the array's elements.
\<close>

definition safeGet :: "jsval \<Rightarrow> string \<Rightarrow> jsval" where
  "safeGet v key =
     (if key = ''constructor'' \<and> typeof v = ''function'' then Undefined
      else if key = ''__proto__'' then Undefined
      else v)"

text \<open>The key of an index: its decimal numeral.\<close>

fun string_of_nat :: "nat \<Rightarrow> string" where
  "string_of_nat n =
     (if n < 10 then [char_of (48 + n)]
      else string_of_nat (n div 10) @ [char_of (48 + n mod 10)])"

fun isObject :: "jsval \<Rightarrow> bool" where
  "isObject (Fn nm i) = True"
| "isObject (Builtin nm) = True"
| "isObject (Arr xs) = True"
| "isObject (Obj kd ps) = True"
| "isObject _ = False"

text \<open>
  \<open>assignMergeValue\<close> writes a value that is not \<open>undefined\<close> unless the key already
  reads as that value, and writes \<open>undefined\<close> only where the key is not \<open>in\<close> the object.
  (lodash compares objects by identity; on the content of the destination that is the
  comparison of values.)
\<close>

definition assignMergeValue ::
  "(string \<times> jsval) list \<Rightarrow> string \<Rightarrow> jsval \<Rightarrow> (string \<times> jsval) list" where
  "assignMergeValue ps k v =
     (if (v \<noteq> Undefined \<and> own_or_inherited ps k \<noteq> v) \<or> (v = Undefined \<and> \<not> key_in k ps)
      then AList.update k v ps else ps)"

text \<open>
  The array that a source array is merged into: the destination array itself, a copy
  of a destination record that is array-like (it has a \<open>length\<close> that is a whole
  number from 0 up), a fresh array otherwise.
\<close>

fun arrayFor :: "jsval \<Rightarrow> jsval list" where
  "arrayFor (Arr ds) = ds"
| "arrayFor (Obj kd ps) =
     (case own_or_inherited ps ''length'' of
        Num n \<Rightarrow>
          if 0 \<le> n \<and> n \<le> 9007199254740991
          then map (\<lambda>i. own_or_inherited ps (string_of_nat i)) [0..<nat n]
          else []
      | other \<Rightarrow> [])"
| "arrayFor _ = []"

fun baseMergeDeep :: "jsval \<Rightarrow> jsval \<Rightarrow> jsval"
  and baseMerge :: "(string \<times> jsval) list \<Rightarrow> (string \<times> jsval) list \<Rightarrow> (string \<times> jsval) list"
  and baseMergeArray :: "jsval list \<Rightarrow> jsval list \<Rightarrow> jsval list"
where
  "baseMergeDeep objValue (Arr ss) = Arr (baseMergeArray (arrayFor objValue) ss)"
| "baseMergeDeep objValue (Obj Plain sp) =
     (case objValue of
        Obj kd dp \<Rightarrow> Obj kd (baseMerge dp sp)
      | Arr ds \<Rightarrow> Arr ds
      | _ \<Rightarrow> Obj Plain (baseMerge [] sp))"
| "baseMergeDeep objValue srcValue = srcValue"
| "baseMerge dp [] = dp"
| "baseMerge dp ((k, srcValue) # sp) =
     baseMerge
       (assignMergeValue dp k
          (if isObject srcValue
           then (if safeGet srcValue k = Undefined then Undefined
                 else baseMergeDeep (safeGet (own_or_inherited dp k) k) srcValue)
           else srcValue))
       sp"
| "baseMergeArray ds [] = ds"
| "baseMergeArray [] (srcValue # ss) =
     (if isObject srcValue then baseMergeDeep Undefined srcValue else srcValue)
     # baseMergeArray [] ss"
| "baseMergeArray (objValue # ds) (srcValue # ss) =
     (if isObject srcValue then baseMergeDeep objValue srcValue
      else if srcValue = Undefined then objValue else srcValue)
     # baseMergeArray ds ss"


text \<open>
  The keys that \<open>merge\<close> walks in its source: the own properties of an object, the
  indices of an array or of a string.
\<close>

fun ownEnumerable :: "jsval \<Rightarrow> (string \<times> jsval) list" where
  "ownEnumerable (Obj kd ps) = ps"
| "ownEnumerable (Arr xs) = zip (map string_of_nat [0..<length xs]) xs"
| "ownEnumerable (Str s) = zip (map string_of_nat [0..<length s]) (map (\<lambda>c. Str [c]) s)"
| "ownEnumerable _ = []"

text \<open>
  The call \<open>merge(object, source)\<close>: a source that is falsy is passed over. The value is
  the content of \<open>object\<close> after the call; \<open>merge\<close> returns that same object. The
  program calls \<open>merge\<close> with a record as destination only.
\<close>

fun merge :: "jsval \<Rightarrow> jsval \<Rightarrow> jsval" where
  "merge (Obj kd dp) source =
     (if truthy source then Obj kd (baseMerge dp (ownEnumerable source)) else Obj kd dp)"
| "merge object source = object"

section \<open>libs.ts\<close>

text \<open>
  Modelled from the spec: \<open>types.ts\<close>, with the enum \<open>CoreNamespace\<close>, is not among the
  sources. The spec has the config hold its \<open>apps\<close>, \<open>layerOrder\<close>, \<open>logLevel\<close> and
  \<open>logFormat\<close> in a nested root object; \<open>CoreNamespace.root\<close> is the key of that object,
  taken here as the name of the package, \<open>@node-in-layers/core\<close>. The properties below
  use of it that it is one path segment (it holds no dot) and names no member of
  \<open>Object.prototype\<close>.
\<close>

definition CoreNamespace_root :: string where
  "CoreNamespace_root = ''@node-in-layers/core''"

definition configHasKey :: "string \<Rightarrow> jsval \<Rightarrow> unit result" where
  "configHasKey key config =
     (if lodash_get config key = Undefined
      then Inl (Error (key @ '' was not found in config''))
      else Inr ())"

definition configItemIsArray :: "string \<Rightarrow> jsval \<Rightarrow> unit result" where
  "configItemIsArray key config =
     (if isArray (lodash_get config key) = False
      then Inl (Error (key @ '' must be an array''))
      else Inr ())"

definition configItemIsType :: "string \<Rightarrow> string \<Rightarrow> jsval \<Rightarrow> unit result" where
  "configItemIsType key type config =
     (let theType = typeof (lodash_get config key)
      in if theType \<noteq> type
         then Inl (Error (key @ '' must be of type '' @ type))
         else Inr ())"

text \<open>
  The callback of \<open>find\<close> in \<open>allAppsHaveAName\<close> throws at an app whose \<open>name\<close> is
  \<open>undefined\<close> and answers \<open>false\<close> otherwise, so \<open>find\<close> visits every app.
\<close>

fun find_nameless :: "jsval list \<Rightarrow> unit result" where
  "find_nameless [] = Inr ()"
| "find_nameless (app # apps) =
     (case js_read app ''name'' of
        Inl e \<Rightarrow> Inl e
      | Inr nm \<Rightarrow>
          if nm = Undefined then Inl (Error ''A configured app does not have a name.'')
          else find_nameless apps)"

text \<open>
  \<open>config[CoreNamespace.root]?.apps.find(...)\<close>: the optional chain gives up on a
  missing root; below it, \<open>apps\<close> must have a \<open>find\<close>, which of the values of this model
  an array has.
\<close>

definition allAppsHaveAName :: "jsval \<Rightarrow> bool result" where
  "allAppsHaveAName config =
     (case js_read config CoreNamespace_root of
        Inl e \<Rightarrow> Inl e
      | Inr root \<Rightarrow>
          if nullish root then Inr True
          else (case js_get root ''apps'' of
                  Arr apps \<Rightarrow>
                    (case find_nameless apps of Inl e \<Rightarrow> Inl e | Inr u \<Rightarrow> Inr True)
                | Undefined \<Rightarrow>
                    Inl (TypeError ''Cannot read properties of undefined (reading 'find')'')
                | Null \<Rightarrow>
                    Inl (TypeError ''Cannot read properties of null (reading 'find')'')
                | other \<Rightarrow> Inl (TypeError ''apps.find is not a function'')))"

definition getNamespaceProperty :: "string \<Rightarrow> string \<Rightarrow> string" where
  "getNamespaceProperty namespace property = namespace @ ''.'' @ property"

definition configItemsToCheck :: "(jsval \<Rightarrow> unit result) list" where
  "configItemsToCheck =
     [configHasKey ''environment'',
      configHasKey ''systemName'',
      configHasKey (getNamespaceProperty CoreNamespace_root ''apps''),
      configItemIsArray (getNamespaceProperty CoreNamespace_root ''apps''),
      configHasKey (getNamespaceProperty CoreNamespace_root ''layerOrder''),
      configItemIsArray (getNamespaceProperty CoreNamespace_root ''layerOrder''),
      (\<lambda>config. map_sum id (\<lambda>b. ()) (allAppsHaveAName config)),
      configItemIsType (getNamespaceProperty CoreNamespace_root ''logLevel'') ''string'',
      configItemIsType (getNamespaceProperty CoreNamespace_root ''logFormat'') ''string'']"

fun forEach :: "(jsval \<Rightarrow> unit result) list \<Rightarrow> jsval \<Rightarrow> unit result" where
  "forEach [] config = Inr ()"
| "forEach (x # xs) config =
     (case x config of Inl e \<Rightarrow> Inl e | Inr u \<Rightarrow> forEach xs config)"

definition validateConfig :: "jsval \<Rightarrow> unit result" where
  "validateConfig config = forEach configItemsToCheck config"

text \<open>
  \<open>getLayersUnavailable\<close>: the \<open>reduce\<close> over the layers with their indices builds the
  record \<open>layerToChoices\<close>; the function returned reads it at the layer asked for.
\<close>

fun reduce_layers :: "string list \<Rightarrow> jsval \<Rightarrow> nat \<Rightarrow> string list \<Rightarrow> jsval" where
  "reduce_layers allLayers acc index [] = acc"
| "reduce_layers allLayers acc index (layer # rest) =
     reduce_layers allLayers
       (merge acc (Obj Plain [(layer, Arr (map Str (drop (index + 1) allLayers)))]))
       (index + 1) rest"

definition layerToChoices :: "string list \<Rightarrow> jsval" where
  "layerToChoices allLayers = reduce_layers allLayers (Obj Plain []) 0 allLayers"

definition getLayersUnavailable :: "string list \<Rightarrow> string \<Rightarrow> jsval result" where
  "getLayersUnavailable allLayers layer =
     (let choices = js_get (layerToChoices allLayers) layer
      in if \<not> truthy choices
         then Inl (Error (layer @ '' is not a valid layer choice''))
         else Inr choices)"

definition isConfig :: "jsval \<Rightarrow> bool" where
  "isConfig obj =
     (if typeof obj = ''string'' then False
      else truthy (lodash_get obj (getNamespaceProperty CoreNamespace_root ''layerOrder'')))"


section \<open>globals.ts\<close>

subsection \<open>The host: file system, module loader, functions, logger\<close>

text \<open>
  What the program reaches outside itself is a parameter: the file system
  (\<open>existsSync\<close>, \<open>process.chdir\<close>, \<open>path.resolve\<close>), the dynamic \<open>import\<close>, the functions
  it calls through a value (the factory a config module exports, the \<open>create\<close> of an
  app's globals), each by the value it resolves to or the error it rejects with, the
  \<open>fs\<close> module and the root logger of \<open>loglevel\<close> as values.
\<close>

record host =
  existsSync :: "string \<Rightarrow> bool"
  resolve :: "string \<Rightarrow> string \<Rightarrow> string"
  chdir :: "string \<Rightarrow> js_error option"
  import_module :: "string \<Rightarrow> jsval result"
  apply_fn :: "nat \<Rightarrow> jsval list \<Rightarrow> jsval result"
  apply_builtin :: "string \<Rightarrow> jsval list \<Rightarrow> jsval result"
  nodeFS :: jsval
  loglevel :: jsval

record props =
  environment :: string
  workingDirectory :: string
  nodeOverrides :: jsval

definition js_call :: "host \<Rightarrow> jsval \<Rightarrow> jsval list \<Rightarrow> jsval result" where
  "js_call h f args =
     (case f of
        Fn nm i \<Rightarrow> apply_fn h i args
      | Builtin nm \<Rightarrow>
          if nm = ''__proto__'' then Inl (TypeError ''not a function'')
          else apply_builtin h nm args
      | other \<Rightarrow> Inl (TypeError ''not a function''))"

text \<open>The conversion of a template literal, \<open>`${v}`\<close>. For a function it stands for
  the source text, which the model does not hold.\<close>

fun join_commas :: "string list \<Rightarrow> string" where
  "join_commas [] = []"
| "join_commas [x] = x"
| "join_commas (x # y # ys) = x @ '','' @ join_commas (y # ys)"

fun js_String :: "jsval \<Rightarrow> string" where
  "js_String Undefined = ''undefined''"
| "js_String Null = ''null''"
| "js_String (Bool b) = (if b then ''true'' else ''false'')"
| "js_String (Num n) =
     (if n < 0 then ''-'' @ string_of_nat (nat (- n)) else string_of_nat (nat n))"
| "js_String (Str s) = s"
| "js_String (Fn nm i) = nm"
| "js_String (Builtin nm) = ''function '' @ nm @ ''() { [native code] }''"
| "js_String (Arr xs) =
     join_commas (map (\<lambda>x. if x = Undefined \<or> x = Null then [] else js_String x) xs)"
| "js_String (Obj kd ps) = ''[object Object]''"

subsection \<open>The process-wide state\<close>

text \<open>
  The logger of \<open>loglevel\<close> is one object for the whole process: its level, and its
  \<open>methodFactory\<close>, which each \<open>use...LogFormat\<close> wraps around the factory it finds.
  \<open>setLevel\<close>, as \<open>loglevel\<close> documents it, takes a level name in any case or a number
  from 0 to 5 and throws on anything else.
\<close>

datatype formatter = FullLogFormat | JsonLogFormat | SimpleLogFormat

record logger =
  level :: nat
  methodFactory :: "formatter list"

datatype effect = Chdir string | ExistsSync string | Import string

datatype promise = Pending string | Settled "jsval result"

record process =
  cwd :: string
  logState :: logger
  effects :: "effect list"
  configCell :: "promise option"

definition toUpperCase :: "string \<Rightarrow> string" where
  "toUpperCase s =
     map (\<lambda>c. let n = (of_char c :: nat)
              in if 97 \<le> n \<and> n \<le> 122 then char_of (n - 32) else c) s"

definition levels :: "(string \<times> nat) list" where
  "levels = [(''TRACE'', 0), (''DEBUG'', 1), (''INFO'', 2), (''WARN'', 3), (''ERROR'', 4),
             (''SILENT'', 5)]"

fun normalizeLevel :: "jsval \<Rightarrow> nat option" where
  "normalizeLevel (Str s) = map_of levels (toUpperCase s)"
| "normalizeLevel (Num n) = (if 0 \<le> n \<and> n \<le> 5 then Some (nat n) else None)"
| "normalizeLevel _ = None"

definition setLevel :: "jsval \<Rightarrow> logger \<Rightarrow> logger result" where
  "setLevel lvl lg =
     (case normalizeLevel lvl of
        Some n \<Rightarrow> Inr (lg\<lparr>level := n\<rparr>)
      | None \<Rightarrow> Inl (TypeError (''log.setLevel() called with invalid level: '' @ js_String lvl)))"

subsection \<open>services\<close>

definition useFullLogFormat :: "logger \<Rightarrow> logger" where
  "useFullLogFormat lg = lg\<lparr>methodFactory := FullLogFormat # methodFactory lg\<rparr>"

definition useJsonLogFormat :: "logger \<Rightarrow> logger" where
  "useJsonLogFormat lg = lg\<lparr>methodFactory := JsonLogFormat # methodFactory lg\<rparr>"

definition useSimpleLogFormat :: "logger \<Rightarrow> logger" where
  "useSimpleLogFormat lg = lg\<lparr>methodFactory := SimpleLogFormat # methodFactory lg\<rparr>"

text \<open>
  \<open>configureLogging\<close> returns what it returns or throws, and the state of the logger it
  leaves behind in either case.
\<close>

text \<open>
  Modelled from the spec: the enum \<open>LogFormat\<close> of \<open>types.ts\<close> is not among the
  sources; the spec gives its values as \<open>json\<close>, \<open>simple\<close> and \<open>full\<close>.
\<close>

definition configureLogging :: "host \<Rightarrow> jsval \<Rightarrow> logger \<Rightarrow> jsval result \<times> logger" where
  "configureLogging h config lg =
     (case js_read config CoreNamespace_root of
        Inl e \<Rightarrow> (Inl e, lg)
      | Inr root \<Rightarrow>
          (case js_read root ''logLevel'' of
             Inl e \<Rightarrow> (Inl e, lg)
           | Inr lvl \<Rightarrow>
               (case setLevel lvl lg of
                  Inl e \<Rightarrow> (Inl e, lg)
                | Inr lg1 \<Rightarrow>
                    (let logFormat = js_get root ''logFormat''
                     in if logFormat = Str ''json'' then (Inr (loglevel h), useJsonLogFormat lg1)
                        else if logFormat = Str ''simple'' then
                          (Inr (loglevel h), useSimpleLogFormat lg1)
                        else if logFormat = Str ''full'' then
                          (Inr (loglevel h), useFullLogFormat lg1)
                        else
                          (Inl (Error (''LogFormat '' @ js_String logFormat @ '' is not supported'')),
                           lg1)))))"

text \<open>\<open>_findConfigPath\<close>: \<open>find\<close> probes the candidate paths in order and stops at the
  first that exists.\<close>

fun find_existing :: "host \<Rightarrow> string list \<Rightarrow> process \<Rightarrow> string option \<times> process" where
  "find_existing h [] st = (None, st)"
| "find_existing h (filePath # rest) st =
     (let st1 = st\<lparr>effects := effects st @ [ExistsSync filePath]\<rparr>
      in if existsSync h filePath then (Some filePath, st1) else find_existing h rest st1)"

definition findConfigPath :: "host \<Rightarrow> props \<Rightarrow> process \<Rightarrow> string option \<times> process" where
  "findConfigPath h p st =
     (let extensions = [''mjs'', ''js'']
      in find_existing h
           (map (\<lambda>e. resolve h (cwd st)
                        (workingDirectory p @ ''/config.'' @ environment p @ ''.'' @ e))
              extensions)
           st)"

text \<open>
  The routine that \<open>_loadConfig\<close> memoizes, in the two stretches in which it runs: up to
  its first \<open>await\<close>, within the call (the change of directory, the search, the start of
  the import), and from there to its end, when the module has loaded (the call of what
  the module exports, the validation).
\<close>

definition loadConfig_start :: "host \<Rightarrow> props \<Rightarrow> process \<Rightarrow> promise \<times> process" where
  "loadConfig_start h p st =
     (let st0 = st\<lparr>effects := effects st @ [Chdir (workingDirectory p)]\<rparr>
      in case chdir h (workingDirectory p) of
           Some e \<Rightarrow> (Settled (Inl e), st0)
         | None \<Rightarrow>
             (let st1 = st0\<lparr>cwd := workingDirectory p\<rparr>;
                  (fullPath, st2) = findConfigPath h p st1
              in case fullPath of
                   None \<Rightarrow>
                     (Settled (Inl (Error (''Could not find a config.'' @ environment p
                                            @ '' for mjs, or js.''))), st2)
                 | Some path \<Rightarrow>
                     (Pending (''file://'' @ path),
                      st2\<lparr>effects := effects st2 @ [Import (''file://'' @ path)]\<rparr>)))"

definition loadConfig_finish :: "host \<Rightarrow> string \<Rightarrow> jsval result" where
  "loadConfig_finish h url =
     (case import_module h url of
        Inl e \<Rightarrow> Inl e
      | Inr module \<Rightarrow>
          (let func = (if truthy (js_get module ''default'') then js_get module ''default''
                       else module)
           in case js_call h func [] of
                Inl e \<Rightarrow> Inl e
              | Inr config \<Rightarrow>
                  (case validateConfig config of Inl e \<Rightarrow> Inl e | Inr u \<Rightarrow> Inr config)))"

text \<open>
  Modelled from the spec: \<open>memoizeValue\<close> of \<open>utils.ts\<close> is not among the sources. The
  spec: the underlying resolution-and-load routine executes at most once per process;
  all callers, including concurrent first callers, observe the same single outcome, and
  no second filesystem access occurs on subsequent calls; the memo is a promise captured
  in a closure that is shared. So the first call runs the routine and keeps its promise
  in the cell, every call returns the promise of the cell, and the promise settles once.
\<close>

definition loadConfig_call :: "host \<Rightarrow> props \<Rightarrow> process \<Rightarrow> promise \<times> process" where
  "loadConfig_call h p st =
     (case configCell st of
        Some pr \<Rightarrow> (pr, st)
      | None \<Rightarrow>
          (let (pr, st1) = loadConfig_start h p st in (pr, st1\<lparr>configCell := Some pr\<rparr>)))"

text \<open>
  The promise settles when the module has loaded: the cell then holds the outcome.
  Awaiting a promise gives the outcome it settles with.
\<close>

definition loadConfig_settle :: "host \<Rightarrow> process \<Rightarrow> process" where
  "loadConfig_settle h st =
     (case configCell st of
        Some (Pending url) \<Rightarrow> st\<lparr>configCell := Some (Settled (loadConfig_finish h url))\<rparr>
      | other \<Rightarrow> st)"

definition await :: "host \<Rightarrow> promise \<Rightarrow> jsval result" where
  "await h pr = (case pr of Pending url \<Rightarrow> loadConfig_finish h url | Settled r \<Rightarrow> r)"

text \<open>\<open>await loadConfig()\<close>: the call, the settlement, the outcome.\<close>

definition loadConfig :: "host \<Rightarrow> props \<Rightarrow> process \<Rightarrow> jsval result \<times> process" where
  "loadConfig h p st =
     (let (pr, st1) = loadConfig_call h p st
      in (await h pr, loadConfig_settle h st1))"

definition getConstants :: "props \<Rightarrow> jsval" where
  "getConstants p =
     Obj Plain [(''workingDirectory'', Str (workingDirectory p)),
                (''environment'', Str (environment p))]"

definition getNodeServices :: "host \<Rightarrow> props \<Rightarrow> jsval" where
  "getNodeServices h p =
     merge (Obj Plain [(''fs'', nodeFS h)])
       (if truthy (nodeOverrides p) then nodeOverrides p else Obj Plain [])"

definition getGlobals :: "host \<Rightarrow> jsval \<Rightarrow> jsval \<Rightarrow> jsval result" where
  "getGlobals h commonGlobals app =
     (case js_read app ''globals'' of
        Inl e \<Rightarrow> Inl e
      | Inr g \<Rightarrow>
          if truthy g then js_call h (js_get g ''create'') [commonGlobals]
          else Inr (Obj Plain []))"

subsection \<open>features\<close>

text \<open>
  \<open>loadGlobals\<close> applies \<open>merge\<close> to two objects of its own, and \<open>merge\<close> writes into its
  first argument: the frame holds the content of the object bound to \<open>commonGlobals\<close>
  and of the accumulator of the \<open>reduce\<close>. Each app's factory is handed the
  \<open>commonGlobals\<close> object; the value \<open>loadGlobals\<close> returns is that object, after the last
  \<open>merge\<close> has written the accumulated globals into it.
\<close>

record frame =
  commonGlobals :: jsval
  acc :: jsval

definition reduce_step :: "host \<Rightarrow> frame \<Rightarrow> jsval \<Rightarrow> frame result" where
  "reduce_step h fr app =
     (case getGlobals h (commonGlobals fr) app of
        Inl e \<Rightarrow> Inl e
      | Inr dep \<Rightarrow> Inr (fr\<lparr>acc := merge (acc fr) dep\<rparr>))"

fun reduce_apps :: "host \<Rightarrow> frame \<Rightarrow> jsval list \<Rightarrow> frame result" where
  "reduce_apps h fr [] = Inr fr"
| "reduce_apps h fr (app # apps) =
     (case reduce_step h fr app of
        Inl e \<Rightarrow> Inl e
      | Inr fr1 \<Rightarrow> reduce_apps h fr1 apps)"

definition root_apps :: "jsval \<Rightarrow> jsval list result" where
  "root_apps config =
     (case js_read config CoreNamespace_root of
        Inl e \<Rightarrow> Inl e
      | Inr root \<Rightarrow>
          (case js_read root ''apps'' of
             Inl e \<Rightarrow> Inl e
           | Inr (Arr apps) \<Rightarrow> Inr apps
           | Inr other \<Rightarrow> Inl (TypeError ''apps.reduce is not a function'')))"

definition buildCommonGlobals :: "host \<Rightarrow> props \<Rightarrow> jsval \<Rightarrow> jsval \<Rightarrow> jsval" where
  "buildCommonGlobals h p config lg =
     Obj Plain [(''config'', config), (''log'', lg), (''node'', getNodeServices h p),
                (''constants'', getConstants p)]"

definition loadGlobals_frame ::
  "host \<Rightarrow> props \<Rightarrow> jsval \<Rightarrow> process \<Rightarrow> frame result \<times> process" where
  "loadGlobals_frame h p environmentOrConfig st =
     (let (rc, st1) = (if isConfig environmentOrConfig then (Inr environmentOrConfig, st)
                       else loadConfig h p st)
      in case rc of
           Inl e \<Rightarrow> (Inl e, st1)
         | Inr config \<Rightarrow>
             (case validateConfig config of
                Inl e \<Rightarrow> (Inl e, st1)
              | Inr u \<Rightarrow>
                  (let (rl, lg) = configureLogging h config (logState st1);
                       st2 = st1\<lparr>logState := lg\<rparr>
                   in case rl of
                        Inl e \<Rightarrow> (Inl e, st2)
                      | Inr lv \<Rightarrow>
                          (let fr = \<lparr>commonGlobals = buildCommonGlobals h p config lv,
                                     acc = Obj Plain []\<rparr>
                           in case root_apps config of
                                Inl e \<Rightarrow> (Inl e, st2)
                              | Inr apps \<Rightarrow>
                                  (case reduce_apps h fr apps of
                                     Inl e \<Rightarrow> (Inl e, st2)
                                   | Inr fr1 \<Rightarrow>
                                       (Inr (fr1\<lparr>commonGlobals :=
                                                    merge (commonGlobals fr1) (acc fr1)\<rparr>),
                                        st2))))))"

definition loadGlobals :: "host \<Rightarrow> props \<Rightarrow> jsval \<Rightarrow> process \<Rightarrow> jsval result \<times> process" where
  "loadGlobals h p environmentOrConfig st =
     (let (r, st1) = loadGlobals_frame h p environmentOrConfig st
      in (map_sum id commonGlobals r, st1))"

section \<open>Notions used to state the properties\<close>

text \<open>
  A leaf of a merge: a value that \<open>merge\<close> assigns as it is. Arrays and plain records
  are merged recursively, and \<open>undefined\<close> is skipped where the destination has the key.
\<close>

fun isLeaf :: "jsval \<Rightarrow> bool" where
  "isLeaf Undefined = False"
| "isLeaf (Arr xs) = False"
| "isLeaf (Obj Plain ps) = False"
| "isLeaf _ = True"

text \<open>A leaf that \<open>merge\<close> assigns under the key \<open>k\<close>: the guard hides no primitive, and
  of the other leaves those it reads as they are.\<close>

definition leafAt :: "string \<Rightarrow> jsval \<Rightarrow> bool" where
  "leafAt k v = (isLeaf v \<and> (isObject v \<longrightarrow> safeGet v k = v))"

text \<open>
  The items of a configuration by direct reads, \<open>config[k]\<close> and
  \<open>config[CoreNamespace.root][k]\<close>, \<open>undefined\<close> where a read has nothing to read from.
\<close>

definition top_item :: "jsval \<Rightarrow> string \<Rightarrow> jsval" where
  "top_item config k = (if nullish config then Undefined else js_get config k)"

definition root_item :: "jsval \<Rightarrow> string \<Rightarrow> jsval" where
  "root_item config k =
     (let root = top_item config CoreNamespace_root
      in if nullish root then Undefined else js_get root k)"




text \<open>
  The calls of \<open>loadConfig\<close> and the settlement of its promise, in any order: what
  callers that do not wait for one another can make happen.
\<close>

datatype loader_event = CallLoadConfig | ModuleLoaded

fun run_loader :: "host \<Rightarrow> props \<Rightarrow> loader_event list \<Rightarrow> process \<Rightarrow> process" where
  "run_loader h p [] st = st"
| "run_loader h p (CallLoadConfig # evs) st = run_loader h p evs (snd (loadConfig_call h p st))"
| "run_loader h p (ModuleLoaded # evs) st = run_loader h p evs (loadConfig_settle h st)"

text \<open>The outcome that the cell holds, once its promise has settled.\<close>

definition outcome :: "process \<Rightarrow> jsval result option" where
  "outcome st = (case configCell st of Some (Settled r) \<Rightarrow> Some r | other \<Rightarrow> None)"

definition isFunction :: "jsval \<Rightarrow> bool" where
  "isFunction v = (typeof v = ''function'')"

text \<open>
  Reading along a path of keys, and the two conditions under which a merge carries a
  leaf to the end of a path: the source holds the leaf at the end of the path, below
  plain records; the destination holds no array on the way (a record merged into an
  array is the case that leaves this value model).
\<close>

fun path_get :: "jsval \<Rightarrow> string list \<Rightarrow> jsval" where
  "path_get v [] = v"
| "path_get v (k # ks) = path_get (js_get v k) ks"

fun holds_leaf :: "(string \<times> jsval) list \<Rightarrow> string list \<Rightarrow> jsval \<Rightarrow> bool" where
  "holds_leaf sp [] v = False"
| "holds_leaf sp [k] v = (distinct (map fst sp) \<and> map_of sp k = Some v \<and> leafAt k v)"
| "holds_leaf sp (k # k' # ks) v =
     (distinct (map fst sp) \<and> k \<noteq> ''__proto__''
      \<and> (case map_of sp k of
            Some (Obj Plain sp') \<Rightarrow> holds_leaf sp' (k' # ks) v
          | other \<Rightarrow> False))"

fun no_array_on :: "(string \<times> jsval) list \<Rightarrow> string list \<Rightarrow> bool" where
  "no_array_on dp [] = True"
| "no_array_on dp (k # ks) =
     (case own_or_inherited dp k of
        Arr ds \<Rightarrow> ks = []
      | Obj kd dp' \<Rightarrow> no_array_on dp' ks
      | other \<Rightarrow> True)"

subsection \<open>Example inputs\<close>

definition example_root :: "jsval list \<Rightarrow> string \<Rightarrow> string \<Rightarrow> jsval" where
  "example_root apps logLevel logFormat =
     Obj Plain
       [(''apps'', Arr apps),
        (''layerOrder'', Arr [Str ''services'', Str ''features'']),
        (''logLevel'', Str logLevel),
        (''logFormat'', Str logFormat)]"

definition example_config :: "jsval list \<Rightarrow> string \<Rightarrow> string \<Rightarrow> jsval" where
  "example_config apps logLevel logFormat =
     Obj Plain
       [(''environment'', Str ''unit-test''),
        (''systemName'', Str ''nil-core''),
        (CoreNamespace_root, example_root apps logLevel logFormat)]"

definition example_app :: "string \<Rightarrow> nat \<Rightarrow> jsval" where
  "example_app nm i =
     Obj Plain [(''name'', Str nm), (''globals'', Obj Plain [(''create'', Fn ''create'' i)])]"

text \<open>
  A host with one config file, \<open>/app/config.unit-test.js\<close>, whose module exports
  function 0 by default, and with the factories of four apps: function 1 returns
  \<open>{x: 2, y: 3}\<close>, function 2 returns \<open>{x: 1}\<close>, function 3 returns
  \<open>{constants: {extra: 1}}\<close>; every other function rejects.
\<close>

definition example_host :: host where
  "example_host =
     \<lparr>existsSync = (\<lambda>f. f = ''/app/config.unit-test.js''),
      resolve = (\<lambda>d f. f),
      chdir = (\<lambda>d. None),
      import_module = (\<lambda>u. Inr (Obj (Instance ''Module'') [(''default'', Fn ''default'' 0)])),
      apply_fn = (\<lambda>i args.
         if i = 0 then Inr (example_config [] ''info'' ''json'')
         else if i = 1 then Inr (Obj Plain [(''x'', Num 2), (''y'', Num 3)])
         else if i = 2 then Inr (Obj Plain [(''x'', Num 1)])
         else if i = 3 then Inr (Obj Plain [(''constants'', Obj Plain [(''extra'', Num 1)])])
         else Inl (Error ''rejected'')),
      apply_builtin = (\<lambda>nm args. Inr Undefined),
      nodeFS = Obj Plain [],
      loglevel = Obj (Instance ''Logger'') []\<rparr>"

definition example_props :: props where
  "example_props =
     \<lparr>environment = ''unit-test'', workingDirectory = ''/app'', nodeOverrides = Undefined\<rparr>"

definition fresh_process :: process where
  "fresh_process =
     \<lparr>cwd = ''/'', logState = \<lparr>level = 3, methodFactory = []\<rparr>, effects = [],
      configCell = None\<rparr>"

text \<open>The example host, with a config module that exports a Config value, not a
  factory.\<close>

definition value_module_host :: host where
  "value_module_host =
     example_host\<lparr>import_module :=
       (\<lambda>u. Inr (Obj (Instance ''Module'')
                    [(''default'', example_config [] ''info'' ''json'')]))\<rparr>"

section \<open>Properties of the program\<close>

subsection \<open>merge: what a source key does to the destination\<close>

lemma map_of_assignMergeValue_other:
  "k' \<noteq> k \<Longrightarrow> map_of (assignMergeValue ps k v) k' = map_of ps k'"
  by (simp add: assignMergeValue_def update_conv')

lemma own_or_inherited_assignMergeValue:
  "own_or_inherited (assignMergeValue ps k v) k =
     (if v = Undefined then own_or_inherited ps k else v)"
  by (auto simp: assignMergeValue_def own_or_inherited_def key_in_def inherited_def
      update_conv' split: option.splits)

lemma own_or_inherited_cong:
  "map_of ps k = map_of qs k \<Longrightarrow> own_or_inherited ps k = own_or_inherited qs k"
  by (simp add: own_or_inherited_def)

lemma baseMerge_other:
  "k \<notin> fst ` set sp \<Longrightarrow> map_of (baseMerge dp sp) k = map_of dp k"
proof (induction sp arbitrary: dp)
  case Nil
  then show ?case by simp
next
  case (Cons a sp)
  obtain k' sv where a: "a = (k', sv)" by (cases a)
  with Cons.prems have ne: "k \<noteq> k'" and rest: "k \<notin> fst ` set sp" by auto
  show ?case
    using Cons.IH [OF rest] ne by (simp add: a map_of_assignMergeValue_other)
qed

lemma baseMergeDeep_leaf: "isLeaf v \<Longrightarrow> isObject v \<Longrightarrow> baseMergeDeep ov v = v"
  by (cases v rule: isLeaf.cases) simp_all

lemma newValue_leaf:
  assumes "leafAt k v"
  shows "(if isObject v
          then (if safeGet v k = Undefined then Undefined else baseMergeDeep ov v)
          else v) = v"
proof (cases "isObject v")
  case True
  with assms have "safeGet v k = v" "isLeaf v" by (simp_all add: leafAt_def)
  moreover from this have "v \<noteq> Undefined" by auto
  ultimately show ?thesis using True by (simp add: baseMergeDeep_leaf)
next
  case False
  then show ?thesis by simp
qed

lemma baseMerge_leaf:
  "distinct (map fst sp) \<Longrightarrow> map_of sp k = Some v \<Longrightarrow> leafAt k v \<Longrightarrow>
   own_or_inherited (baseMerge dp sp) k = v"
proof (induction sp arbitrary: dp)
  case Nil
  then show ?case by simp
next
  case (Cons a sp)
  obtain k' sv where a: "a = (k', sv)" by (cases a)
  show ?case
  proof (cases "k' = k")
    case True
    with Cons.prems a have sv: "sv = v" and notin: "k \<notin> fst ` set sp" by auto
    have v: "v \<noteq> Undefined" using Cons.prems(3) by (auto simp: leafAt_def)
    let ?nv = "if isObject v
               then (if safeGet v k = Undefined then Undefined
                     else baseMergeDeep (safeGet (own_or_inherited dp k) k) v)
               else v"
    have nv: "?nv = v" by (rule newValue_leaf [OF Cons.prems(3)])
    have "own_or_inherited (baseMerge (assignMergeValue dp k ?nv) sp) k
            = own_or_inherited (assignMergeValue dp k ?nv) k"
      by (rule own_or_inherited_cong) (rule baseMerge_other [OF notin])
    also have "\<dots> = v" using v by (simp only: nv own_or_inherited_assignMergeValue if_False)
    finally show ?thesis using True sv a by simp
  next
    case False
    with Cons.prems a have "distinct (map fst sp)" "map_of sp k = Some v" by auto
    from Cons.IH [OF this Cons.prems(3)] show ?thesis by (simp add: a)
  qed
qed

lemma distinct_assignMergeValue:
  "distinct (map fst ps) \<Longrightarrow> distinct (map fst (assignMergeValue ps k v))"
  by (simp add: assignMergeValue_def distinct_update)

lemma distinct_baseMerge:
  "distinct (map fst dp) \<Longrightarrow> distinct (map fst (baseMerge dp sp))"
proof (induction sp arbitrary: dp)
  case Nil
  then show ?case by simp
next
  case (Cons a sp)
  obtain k' sv where a: "a = (k', sv)" by (cases a)
  show ?case using Cons.IH [OF distinct_assignMergeValue [OF Cons.prems]] by (simp add: a)
qed

subsection \<open>getLayersUnavailable\<close>

lemma baseMergeArray_strings: "baseMergeArray [] (map Str xs) = map Str xs"
  by (induction xs) simp_all

lemma merge_layer:
  assumes "map_of ps layer = None" and "layer \<noteq> ''__proto__''"
  shows "merge (Obj Plain ps) (Obj Plain [(layer, Arr (map Str xs))])
           = Obj Plain (AList.update layer (Arr (map Str xs)) ps)"
proof -
  have "own_or_inherited ps layer = Undefined \<or> own_or_inherited ps layer = Builtin layer"
    using assms by (simp add: own_or_inherited_def inherited_def)
  then show ?thesis
    using assms(2) by (auto simp: assignMergeValue_def baseMergeArray_strings safeGet_def)
qed

lemma reduce_layers_spec:
  assumes "distinct rest" and "\<forall>k\<in>set rest. map_of ps k = None"
    and "''__proto__'' \<notin> set rest"
  shows "\<exists>qs. reduce_layers allLayers (Obj Plain ps) index rest = Obj Plain qs
          \<and> (\<forall>j<length rest. map_of qs (rest ! j)
                 = Some (Arr (map Str (drop (index + j + 1) allLayers))))
          \<and> (\<forall>k. k \<notin> set rest \<longrightarrow> map_of qs k = map_of ps k)"
  using assms
proof (induction rest arbitrary: ps index)
  case Nil
  then show ?case by simp
next
  case (Cons layer rest)
  let ?v = "Arr (map Str (drop (index + 1) allLayers))"
  let ?ps = "AList.update layer ?v ps"
  have step: "merge (Obj Plain ps) (Obj Plain [(layer, ?v)]) = Obj Plain ?ps"
  proof (rule merge_layer)
    show "map_of ps layer = None" using Cons.prems(2) by simp
    show "layer \<noteq> ''__proto__''" using Cons.prems(3) by auto
  qed
  have np: "''__proto__'' \<notin> set rest" using Cons.prems(3) by simp
  have d: "distinct rest" and notin: "layer \<notin> set rest" using Cons.prems(1) by auto
  have none: "\<forall>k\<in>set rest. map_of ?ps k = None"
    using Cons.prems(2) notin by (auto simp: update_conv')
  from Cons.IH [OF d none np, of "index + 1"] obtain qs where
    qs: "reduce_layers allLayers (Obj Plain ?ps) (index + 1) rest = Obj Plain qs"
    and suf: "\<forall>j<length rest. map_of qs (rest ! j)
                 = Some (Arr (map Str (drop (index + 1 + j + 1) allLayers)))"
    and oth: "\<forall>k. k \<notin> set rest \<longrightarrow> map_of qs k = map_of ?ps k"
    by blast
  have "reduce_layers allLayers (Obj Plain ps) index (layer # rest) = Obj Plain qs"
    using step qs by (simp del: merge.simps)
  moreover have "\<forall>j<length (layer # rest). map_of qs ((layer # rest) ! j)
                 = Some (Arr (map Str (drop (index + j + 1) allLayers)))"
  proof (intro allI impI)
    fix j assume j: "j < length (layer # rest)"
    show "map_of qs ((layer # rest) ! j) = Some (Arr (map Str (drop (index + j + 1) allLayers)))"
    proof (cases j)
      case 0
      then show ?thesis using oth notin by (simp add: update_conv')
    next
      case (Suc j')
      then show ?thesis using suf j by simp
    qed
  qed
  moreover have "\<forall>k. k \<notin> set (layer # rest) \<longrightarrow> map_of qs k = map_of ps k"
    using oth by (auto simp: update_conv')
  ultimately show ?case by blast
qed

lemma layerToChoices_spec:
  assumes "distinct allLayers" and "''__proto__'' \<notin> set allLayers"
  shows "\<exists>qs. layerToChoices allLayers = Obj Plain qs
          \<and> (\<forall>j<length allLayers. map_of qs (allLayers ! j)
                 = Some (Arr (map Str (drop (Suc j) allLayers))))
          \<and> (\<forall>k. k \<notin> set allLayers \<longrightarrow> map_of qs k = None)"
  using reduce_layers_spec [of allLayers "[]" allLayers 0] assms
  by (simp add: layerToChoices_def)

text \<open>
  The layers after a layer. For a list of distinct layer names, none of them
  \<open>__proto__\<close> (a key that \<open>merge\<close> does not write), the function returned by
  \<open>getLayersUnavailable\<close> maps the layer at position \<open>i\<close> to the layers after it, and the
  last layer to the empty array.
\<close>

theorem getLayersUnavailable_suffix:
  assumes "distinct allLayers" and "''__proto__'' \<notin> set allLayers" and "i < length allLayers"
  shows "getLayersUnavailable allLayers (allLayers ! i)
           = Inr (Arr (map Str (drop (Suc i) allLayers)))"
proof -
  from layerToChoices_spec [OF assms(1,2)] obtain qs where
    "layerToChoices allLayers = Obj Plain qs"
    "map_of qs (allLayers ! i) = Some (Arr (map Str (drop (Suc i) allLayers)))"
    using assms(3) by blast
  then show ?thesis by (simp add: getLayersUnavailable_def own_or_inherited_def)
qed

theorem getLayersUnavailable_suffix_witness:
  "getLayersUnavailable [''a'', ''b'', ''c''] ''a'' = Inr (Arr [Str ''b'', Str ''c''])
   \<and> getLayersUnavailable [''a'', ''b'', ''c''] ''c'' = Inr (Arr [])"
  using getLayersUnavailable_suffix [of "[''a'', ''b'', ''c'']" 0]
    getLayersUnavailable_suffix [of "[''a'', ''b'', ''c'']" 2]
  by simp

text \<open>
  A name that is not a layer. The lookup reads \<open>layerToChoices[layer]\<close> and throws when
  the value is falsy. For a name that no layer has, the read finds \<open>undefined\<close> and the
  lookup throws, unless the name is a member of \<open>Object.prototype\<close>: then the read finds
  the inherited member and the lookup returns it.
\<close>

theorem getLayersUnavailable_unknown:
  assumes "distinct allLayers" and "''__proto__'' \<notin> set allLayers" and "layer \<notin> set allLayers"
  shows "getLayersUnavailable allLayers layer =
           (if layer \<in> set object_prototype_keys then Inr (Builtin layer)
            else Inl (Error (layer @ '' is not a valid layer choice'')))"
proof -
  from layerToChoices_spec [OF assms(1,2)] obtain qs where
    "layerToChoices allLayers = Obj Plain qs" "map_of qs layer = None"
    using assms(3) by blast
  then show ?thesis
    by (simp add: getLayersUnavailable_def own_or_inherited_def inherited_def)
qed

theorem getLayersUnavailable_unknown_witness:
  "getLayersUnavailable [''a'', ''b'', ''c''] ''z''
     = Inl (Error ''z is not a valid layer choice'')
   \<and> getLayersUnavailable [''a'', ''b'', ''c''] ''valueOf'' = Inr (Builtin ''valueOf'')"
  using getLayersUnavailable_unknown [of "[''a'', ''b'', ''c'']" "''z''"]
    getLayersUnavailable_unknown [of "[''a'', ''b'', ''c'']" "''valueOf''"]
  by (simp add: object_prototype_keys_def)

text \<open>
  C7. The claim: for every list of distinct layers the lookup maps each layer to the
  layers after it, and applied to any name that is not a layer it throws an error that
  names the layer as invalid. The code reads \<open>layerToChoices[layer]\<close> from a plain record,
  so the name \<open>toString\<close>, which is no layer of \<open>['a', 'b', 'c']\<close>, finds the method
  that every record inherits: the lookup returns that method and throws nothing.
\<close>

theorem getLayersUnavailable_inherited_name:
  "getLayersUnavailable [''a'', ''b'', ''c''] ''toString'' = Inr (Builtin ''toString'')"
  by code_simp

subsection \<open>configureLogging\<close>

lemma root_not_nullish:
  "root_item config k \<noteq> Undefined \<Longrightarrow>
     \<not> nullish config \<and> \<not> nullish (js_get config CoreNamespace_root)"
  by (auto simp: root_item_def top_item_def Let_def split: if_splits)

lemma root_item_read:
  assumes "root_item config k \<noteq> Undefined"
  shows "js_read config CoreNamespace_root = Inr (js_get config CoreNamespace_root)"
    and "js_read (js_get config CoreNamespace_root) k' = Inr (root_item config k')"
  using root_not_nullish [OF assms]
  by (auto simp: js_read_def nullish_def root_item_def top_item_def)

lemma root_item_get:
  assumes "root_item config k \<noteq> Undefined"
  shows "js_get (js_get config CoreNamespace_root) k' = root_item config k'"
  using root_not_nullish [OF assms] by (simp add: root_item_def top_item_def)

text \<open>
  C8. For a config whose root \<open>logLevel\<close> is a level that the logger takes and whose
  root \<open>logFormat\<close> is a string: if the format is none of \<open>json\<close>, \<open>simple\<close> and \<open>full\<close>,
  \<open>configureLogging\<close> throws an error whose message holds the format; for each of the
  three it returns the logger.
\<close>

theorem configureLogging_logFormat:
  assumes "normalizeLevel (root_item config ''logLevel'') = Some n"
      and "root_item config ''logFormat'' = Str f"
  shows "fst (configureLogging h config lg) =
           (if f \<in> {''json'', ''simple'', ''full''} then Inr (loglevel h)
            else Inl (Error (''LogFormat '' @ f @ '' is not supported'')))"
proof -
  have ne: "root_item config ''logFormat'' \<noteq> Undefined" using assms(2) by simp
  note rd = root_item_read [OF ne]
  have fmt: "js_get (js_get config CoreNamespace_root) ''logFormat'' = Str f"
    using root_item_get [OF ne, of "''logFormat''"] assms(2) by simp
  show ?thesis
    using assms(1) by (simp add: configureLogging_def rd setLevel_def fmt Let_def)
qed

theorem configureLogging_logFormat_witness:
  "fst (configureLogging example_host (example_config [] ''info'' ''xml'')
          \<lparr>level = 3, methodFactory = []\<rparr>)
     = Inl (Error ''LogFormat xml is not supported'')
   \<and> fst (configureLogging example_host (example_config [] ''info'' ''json'')
            \<lparr>level = 3, methodFactory = []\<rparr>)
     = Inr (loglevel example_host)"
proof -
  have a: "normalizeLevel (root_item (example_config [] ''info'' ''xml'') ''logLevel'') = Some 2"
    by code_simp
  have b: "root_item (example_config [] ''info'' ''xml'') ''logFormat'' = Str ''xml''"
    by code_simp
  have c: "normalizeLevel (root_item (example_config [] ''info'' ''json'') ''logLevel'') = Some 2"
    by code_simp
  have d: "root_item (example_config [] ''info'' ''json'') ''logFormat'' = Str ''json''"
    by code_simp
  show ?thesis
    using configureLogging_logFormat [OF a b] configureLogging_logFormat [OF c d] by simp
qed

text \<open>
  C10. \<open>configureLogging\<close> sets the level of the logger before it looks at the format:
  for a config whose root \<open>logLevel\<close> is a level that the logger takes and whose root
  \<open>logFormat\<close> is a string other than \<open>json\<close>, \<open>simple\<close> and \<open>full\<close>, the call throws, and
  the logger it leaves behind has the level of the config; nothing else of the logger
  has changed, and the level is not set back.
\<close>

theorem configureLogging_level_kept_on_error:
  assumes "normalizeLevel (root_item config ''logLevel'') = Some n"
      and "root_item config ''logFormat'' = Str f"
      and "f \<notin> {''json'', ''simple'', ''full''}"
  shows "configureLogging h config lg =
           (Inl (Error (''LogFormat '' @ f @ '' is not supported'')), lg\<lparr>level := n\<rparr>)"
proof -
  have ne: "root_item config ''logFormat'' \<noteq> Undefined" using assms(2) by simp
  note rd = root_item_read [OF ne]
  have fmt: "js_get (js_get config CoreNamespace_root) ''logFormat'' = Str f"
    using root_item_get [OF ne, of "''logFormat''"] assms(2) by simp
  show ?thesis
    using assms(1,3) by (simp add: configureLogging_def rd setLevel_def fmt Let_def)
qed

theorem configureLogging_level_kept_on_error_witness:
  "configureLogging example_host (example_config [] ''debug'' ''xml'')
     \<lparr>level = 3, methodFactory = [JsonLogFormat]\<rparr>
   = (Inl (Error ''LogFormat xml is not supported''),
      \<lparr>level = 1, methodFactory = [JsonLogFormat]\<rparr>)"
proof -
  have a: "normalizeLevel (root_item (example_config [] ''debug'' ''xml'') ''logLevel'') = Some 1"
    by code_simp
  have b: "root_item (example_config [] ''debug'' ''xml'') ''logFormat'' = Str ''xml''"
    by code_simp
  have c: "''xml'' \<notin> {''json'', ''simple'', ''full''}" by simp
  show ?thesis
    using configureLogging_level_kept_on_error [OF a b c] by simp
qed

text \<open>
  A level that the logger does not take: \<open>setLevel\<close> throws before the format is looked
  at, whatever the format, and the logger is left as it was.
\<close>

theorem configureLogging_invalid_level:
  assumes "normalizeLevel (root_item config ''logLevel'') = None"
      and "root_item config ''logFormat'' = Str f"
  shows "configureLogging h config lg =
           (Inl (TypeError (''log.setLevel() called with invalid level: ''
                            @ js_String (root_item config ''logLevel''))), lg)"
proof -
  have ne: "root_item config ''logFormat'' \<noteq> Undefined" using assms(2) by simp
  note rd = root_item_read [OF ne]
  show ?thesis
    using assms(1) by (simp add: configureLogging_def rd setLevel_def)
qed

theorem configureLogging_invalid_level_witness:
  "configureLogging example_host (example_config [] ''verbose'' ''xml'')
     \<lparr>level = 3, methodFactory = []\<rparr>
   = (Inl (TypeError ''log.setLevel() called with invalid level: verbose''),
      \<lparr>level = 3, methodFactory = []\<rparr>)"
proof -
  have a: "normalizeLevel (root_item (example_config [] ''verbose'' ''xml'') ''logLevel'') = None"
    by code_simp
  have b: "root_item (example_config [] ''verbose'' ''xml'') ''logFormat'' = Str ''xml''"
    by code_simp
  have c: "js_String (root_item (example_config [] ''verbose'' ''xml'') ''logLevel'') = ''verbose''"
    by code_simp
  show ?thesis
    using configureLogging_invalid_level [OF a b] c by simp
qed

subsection \<open>validateConfig\<close>






















subsection \<open>loadConfig\<close>

lemma loadConfig_call_cached:
  "configCell st = Some pr \<Longrightarrow> loadConfig_call h p st = (pr, st)"
  by (simp add: loadConfig_call_def)

lemma loadConfig_call_cell:
  "configCell (snd (loadConfig_call h p st)) = Some (fst (loadConfig_call h p st))"
  by (auto simp: loadConfig_call_def split: option.splits prod.splits)

lemma loadConfig_settle_effects:
  "effects (loadConfig_settle h st) = effects st"
  by (auto simp: loadConfig_settle_def split: option.splits promise.splits)

lemma loadConfig_settle_cell:
  "configCell st = Some pr \<Longrightarrow>
     configCell (loadConfig_settle h st) = Some (Settled (await h pr))"
  by (auto simp: loadConfig_settle_def await_def split: promise.splits)

lemma await_Settled: "await h (Settled r) = r"
  by (simp add: await_def)

lemma await_settled_again: "await h (Settled (await h pr)) = await h pr"
  by (simp add: await_def)

text \<open>Once the cell holds a promise, no call or settlement adds an effect, and the
  promise of the cell keeps its outcome.\<close>

lemma run_loader_cached:
  "configCell st = Some pr \<Longrightarrow>
     effects (run_loader h p evs st) = effects st
     \<and> (\<exists>pr'. configCell (run_loader h p evs st) = Some pr' \<and> await h pr' = await h pr)"
proof (induction evs arbitrary: st pr)
  case Nil
  then show ?case by simp
next
  case (Cons ev evs)
  show ?case
  proof (cases ev)
    case CallLoadConfig
    then show ?thesis
      using Cons.IH [OF Cons.prems] by (simp add: loadConfig_call_cached [OF Cons.prems])
  next
    case ModuleLoaded
    then show ?thesis
      using Cons.IH [OF loadConfig_settle_cell [OF Cons.prems], of h]
      by (simp add: loadConfig_settle_effects await_settled_again)
  qed
qed

lemma loadConfig_outcome:
  "outcome (snd (loadConfig h p st)) = Some (fst (loadConfig h p st))"
  using loadConfig_settle_cell [OF loadConfig_call_cell, of h h p st]
  by (auto simp: loadConfig_def outcome_def split: prod.splits)

lemma loadConfig_settle_settled:
  "outcome st = Some r \<Longrightarrow> loadConfig_settle h st = st"
  by (auto simp: loadConfig_settle_def outcome_def split: option.splits promise.splits)

lemma loadConfig_again:
  assumes "loadConfig h p st = (r, st1)"
  shows "loadConfig h p st1 = (r, st1)"
proof -
  have o: "outcome st1 = Some r" using loadConfig_outcome [of h p st] assms by simp
  then have c: "configCell st1 = Some (Settled r)"
    by (auto simp: outcome_def split: option.splits promise.splits)
  show ?thesis
    by (simp add: loadConfig_def loadConfig_call_cached [OF c] loadConfig_settle_settled [OF o]
        await_Settled)
qed

text \<open>
  C6. \<open>loadConfig\<close> is memoized. A call that follows a call returns the identical value
  and leaves the process as it is: no second resolution on the file system. From a
  process that has not loaded its config, the first call runs the routine once, and
  whatever calls and settlements follow in whatever order, callers that did not wait
  for the first to finish included, the effects on the file system stay those of that
  one run, and the promise that a further call returns has the one outcome of the
  first call.
\<close>

theorem loadConfig_memoized:
  "(loadConfig h p st = (r, st1) \<longrightarrow> loadConfig h p st1 = (r, st1))
   \<and> (configCell st = None \<longrightarrow>
        effects (snd (loadConfig_call h p st)) = effects (snd (loadConfig_start h p st))
        \<and> effects (run_loader h p (CallLoadConfig # evs) st)
            = effects (snd (loadConfig_call h p st))
        \<and> await h (fst (loadConfig_call h p (run_loader h p (CallLoadConfig # evs) st)))
            = fst (loadConfig h p st))"
proof (intro conjI impI)
  assume "loadConfig h p st = (r, st1)"
  then show "loadConfig h p st1 = (r, st1)" by (rule loadConfig_again)
next
  assume "configCell st = None"
  then show "effects (snd (loadConfig_call h p st)) = effects (snd (loadConfig_start h p st))"
    by (simp add: loadConfig_call_def split: prod.splits)
next
  let ?first = "loadConfig_call h p st"
  from run_loader_cached [OF loadConfig_call_cell, of h p evs h p st]
  obtain pr' where
    eff: "effects (run_loader h p evs (snd ?first)) = effects (snd ?first)"
    and cell: "configCell (run_loader h p evs (snd ?first)) = Some pr'"
    and same: "await h pr' = await h (fst ?first)"
    by blast
  show "effects (run_loader h p (CallLoadConfig # evs) st) = effects (snd ?first)"
    using eff by simp
  have "fst (loadConfig_call h p (run_loader h p evs (snd ?first))) = pr'"
    by (simp add: loadConfig_call_cached [OF cell])
  then show "await h (fst (loadConfig_call h p (run_loader h p (CallLoadConfig # evs) st)))
               = fst (loadConfig h p st)"
    using same by (simp add: loadConfig_def split: prod.splits)
qed

theorem loadConfig_memoized_witness:
  "loadConfig example_host example_props
       (snd (loadConfig example_host example_props fresh_process))
     = loadConfig example_host example_props fresh_process
   \<and> fst (loadConfig example_host example_props fresh_process)
       = Inr (example_config [] ''info'' ''json'')
   \<and> effects (run_loader example_host example_props
                 [CallLoadConfig, CallLoadConfig, ModuleLoaded, CallLoadConfig] fresh_process)
       = [Chdir ''/app'', ExistsSync ''/app/config.unit-test.mjs'',
          ExistsSync ''/app/config.unit-test.js'', Import ''file:///app/config.unit-test.js'']
   \<and> await example_host
         (fst (loadConfig_call example_host example_props
                 (run_loader example_host example_props
                    [CallLoadConfig, CallLoadConfig, ModuleLoaded, CallLoadConfig]
                    fresh_process)))
       = Inr (example_config [] ''info'' ''json'')"
proof -
  let ?X = "loadConfig example_host example_props fresh_process"
  have a: "?X = (fst ?X, snd ?X)" by simp
  have b: "configCell fresh_process = None" by (simp add: fresh_process_def)
  have c: "fst ?X = Inr (example_config [] ''info'' ''json'')" by code_simp
  have d: "effects (snd (loadConfig_call example_host example_props fresh_process))
             = [Chdir ''/app'', ExistsSync ''/app/config.unit-test.mjs'',
                ExistsSync ''/app/config.unit-test.js'', Import ''file:///app/config.unit-test.js'']"
    by code_simp
  show ?thesis
    using loadConfig_memoized [of example_host example_props fresh_process "fst ?X" "snd ?X"
        "[CallLoadConfig, ModuleLoaded, CallLoadConfig]"] a b c d
    by simp
qed

lemma js_call_not_function:
  "\<not> isFunction f \<Longrightarrow> js_call h f args = Inl (TypeError ''not a function'')"
  by (cases f) (auto simp: js_call_def isFunction_def)

lemma loadConfig_pending:
  assumes "configCell st = None" and "fst (loadConfig_start h p st) = Pending url"
  shows "fst (loadConfig h p st) = loadConfig_finish h url"
  using assms
  by (auto simp: loadConfig_def loadConfig_call_def await_def split: prod.splits)

text \<open>
  C3, as the code has it. The loader takes the default export of the loaded module
  where that is truthy and the module itself otherwise, and calls it with no arguments
  in either case. The value the call resolves to is validated by \<open>validateConfig\<close>
  and, when valid, returned; the outcome is what the cell keeps. An export that
  is no function, as a Config value is, makes the load fail with a TypeError.
\<close>

theorem loadConfig_calls_export:
  assumes "configCell st = None"
      and "fst (loadConfig_start h p st) = Pending url"
      and "import_module h url = Inr module"
  shows "let func = (if truthy (js_get module ''default'') then js_get module ''default''
                     else module);
             r = fst (loadConfig h p st)
         in r = (case js_call h func [] of
                   Inl e \<Rightarrow> Inl e
                 | Inr config \<Rightarrow>
                     (case validateConfig config of Inl e \<Rightarrow> Inl e | Inr u \<Rightarrow> Inr config))
            \<and> (\<not> isFunction func \<longrightarrow> r = Inl (TypeError ''not a function''))
            \<and> outcome (snd (loadConfig h p st)) = Some r"
proof -
  have "fst (loadConfig h p st) = loadConfig_finish h url"
    by (rule loadConfig_pending [OF assms(1,2)])
  then show ?thesis
    using assms(3)
    by (auto simp: loadConfig_finish_def Let_def loadConfig_outcome js_call_not_function)
qed

theorem loadConfig_calls_export_witness:
  "fst (loadConfig example_host example_props fresh_process)
     = Inr (example_config [] ''info'' ''json'')
   \<and> outcome (snd (loadConfig example_host example_props fresh_process))
       = Some (Inr (example_config [] ''info'' ''json''))
   \<and> fst (loadConfig value_module_host example_props fresh_process)
       = Inl (TypeError ''not a function'')"
proof -
  have a: "configCell fresh_process = None" by (simp add: fresh_process_def)
  have b: "fst (loadConfig_start example_host example_props fresh_process)
             = Pending ''file:///app/config.unit-test.js''"
    by code_simp
  have c: "import_module example_host ''file:///app/config.unit-test.js''
             = Inr (Obj (Instance ''Module'') [(''default'', Fn ''default'' 0)])"
    by (simp add: example_host_def)
  have d: "fst (loadConfig_start value_module_host example_props fresh_process)
             = Pending ''file:///app/config.unit-test.js''"
    by code_simp
  have e: "import_module value_module_host ''file:///app/config.unit-test.js''
             = Inr (Obj (Instance ''Module'') [(''default'', example_config [] ''info'' ''json'')])"
    by (simp add: value_module_host_def)
  have f: "validateConfig (example_config [] ''info'' ''json'') = Inr ()" by code_simp
  have g: "\<not> isFunction (example_config [] ''info'' ''json'')"
    by (simp add: isFunction_def example_config_def)
  show ?thesis
    using loadConfig_calls_export [OF a b c] loadConfig_calls_export [OF a d e] f g
    by (simp add: Let_def own_or_inherited_def js_call_def example_host_def example_config_def)
qed

text \<open>
  C3, as the claim has it, fails: a module that exports a valid Config value directly
  is not used as it is; the loader calls the value, and the load fails.
\<close>

theorem loadConfig_exported_value_counterexample:
  "validateConfig (example_config [] ''info'' ''json'') = Inr ()
   \<and> import_module value_module_host ''file:///app/config.unit-test.js''
       = Inr (Obj (Instance ''Module'') [(''default'', example_config [] ''info'' ''json'')])
   \<and> fst (loadConfig value_module_host example_props fresh_process)
       = Inl (TypeError ''not a function'')"
  by code_simp

subsection \<open>loadGlobals: the fold over the apps\<close>

lemma merge_untouched:
  "k \<notin> fst ` set (ownEnumerable d) \<Longrightarrow>
     js_get (merge (Obj kd ps) d) k = js_get (Obj kd ps) k"
  by (simp add: own_or_inherited_cong [OF baseMerge_other])

lemma merge_leaf:
  "distinct (map fst sp) \<Longrightarrow> map_of sp k = Some v \<Longrightarrow> leafAt k v \<Longrightarrow>
     js_get (merge (Obj kd ps) (Obj kd' sp)) k = v"
  by (simp add: baseMerge_leaf)


lemma reduce_step_frame:
  assumes "reduce_step h fr app = Inr fr1"
  shows "commonGlobals fr1 = commonGlobals fr"
    and "\<exists>dep. getGlobals h (commonGlobals fr) app = Inr dep \<and> acc fr1 = merge (acc fr) dep"
  using assms by (auto simp: reduce_step_def split: sum.splits)

lemma reduce_apps_commonGlobals:
  "reduce_apps h fr apps = Inr fr1 \<Longrightarrow> commonGlobals fr1 = commonGlobals fr"
proof (induction apps arbitrary: fr)
  case Nil
  then show ?case by simp
next
  case (Cons app apps)
  then obtain fr2 where s: "reduce_step h fr app = Inr fr2" and r: "reduce_apps h fr2 apps = Inr fr1"
    by (auto split: sum.splits)
  from Cons.IH [OF r] reduce_step_frame(1) [OF s] show ?case by simp
qed

lemma reduce_apps_append:
  "reduce_apps h fr (xs @ ys) =
     (case reduce_apps h fr xs of Inl e \<Rightarrow> Inl e | Inr fr1 \<Rightarrow> reduce_apps h fr1 ys)"
  by (induction xs arbitrary: fr) (auto split: sum.splits)





lemma baseMerge_key:
  "distinct (map fst sp) \<Longrightarrow> map_of sp k = Some sv \<Longrightarrow>
   own_or_inherited (baseMerge dp sp) k =
     (let nv = (if isObject sv
                then (if safeGet sv k = Undefined then Undefined
                      else baseMergeDeep (safeGet (own_or_inherited dp k) k) sv)
                else sv)
      in if nv = Undefined then own_or_inherited dp k else nv)"
proof (induction sp arbitrary: dp)
  case Nil
  then show ?case by simp
next
  case (Cons a sp)
  obtain k' sv' where a: "a = (k', sv')" by (cases a)
  show ?case
  proof (cases "k' = k")
    case True
    with Cons.prems a have sv: "sv' = sv" and notin: "k \<notin> fst ` set sp" by auto
    let ?nv = "if isObject sv
               then (if safeGet sv k = Undefined then Undefined
                     else baseMergeDeep (safeGet (own_or_inherited dp k) k) sv)
               else sv"
    have "own_or_inherited (baseMerge (assignMergeValue dp k ?nv) sp) k
            = own_or_inherited (assignMergeValue dp k ?nv) k"
      by (rule own_or_inherited_cong) (rule baseMerge_other [OF notin])
    also have "\<dots> = (if ?nv = Undefined then own_or_inherited dp k else ?nv)"
      by (rule own_or_inherited_assignMergeValue)
    finally show ?thesis using True sv a by (simp add: Let_def)
  next
    case False
    with Cons.prems a have d: "distinct (map fst sp)" and m: "map_of sp k = Some sv" by auto
    have o: "own_or_inherited (assignMergeValue dp k' x) k = own_or_inherited dp k" for x
      by (rule own_or_inherited_cong) (use False in \<open>simp add: map_of_assignMergeValue_other\<close>)
    obtain x where step: "baseMerge dp (a # sp) = baseMerge (assignMergeValue dp k' x) sp"
      by (simp add: a)
    show ?thesis
      unfolding step Cons.IH [OF d m] o ..
  qed
qed

lemma baseMerge_records:
  assumes "distinct (map fst sp)" and "map_of sp k = Some (Obj Plain sp')"
      and "own_or_inherited dp k = Obj kd dp'" and "k \<noteq> ''__proto__''"
  shows "own_or_inherited (baseMerge dp sp) k = Obj kd (baseMerge dp' sp')"
  using baseMerge_key [OF assms(1,2), of dp] assms(3,4)
  by (simp add: safeGet_def Let_def)

lemma merge_distinct:
  "distinct (map fst ps) \<Longrightarrow> \<exists>qs. merge (Obj kd ps) d = Obj kd qs \<and> distinct (map fst qs)"
  by (simp add: distinct_baseMerge)

lemma reduce_apps_distinct:
  "reduce_apps h fr apps = Inr fr1 \<Longrightarrow> acc fr = Obj kd ps \<Longrightarrow> distinct (map fst ps) \<Longrightarrow>
     \<exists>qs. acc fr1 = Obj kd qs \<and> distinct (map fst qs)"
proof (induction apps arbitrary: fr ps)
  case Nil
  then show ?case by simp
next
  case (Cons app apps)
  then obtain fr2 where s: "reduce_step h fr app = Inr fr2" and r: "reduce_apps h fr2 apps = Inr fr1"
    by (auto split: sum.splits)
  from reduce_step_frame(2) [OF s] Cons.prems(2) merge_distinct [OF Cons.prems(3)]
  obtain qs where "acc fr2 = Obj kd qs" "distinct (map fst qs)"
    by metis
  from Cons.IH [OF r this] show ?case .
qed

lemma configureLogging_returns:
  "configureLogging h config lg = (Inr lv, lg1) \<Longrightarrow> lv = loglevel h"
  by (auto simp: configureLogging_def Let_def split: sum.splits if_splits)

lemma loadGlobals_frame_shape:
  assumes "loadGlobals_frame h p x st = (Inr fr, st')"
  shows "\<exists>config apps fr1.
           (if isConfig x then Inr x else fst (loadConfig h p st)) = Inr config
         \<and> validateConfig config = Inr ()
         \<and> root_apps config = Inr apps
         \<and> reduce_apps h
              \<lparr>commonGlobals = buildCommonGlobals h p config (loglevel h), acc = Obj Plain []\<rparr>
              apps = Inr fr1
         \<and> fr = fr1\<lparr>commonGlobals := merge (commonGlobals fr1) (acc fr1)\<rparr>"
  using assms
  by (auto simp: loadGlobals_frame_def Let_def dest!: configureLogging_returns
      split: prod.splits sum.splits if_splits)

subsection \<open>loadGlobals: the final merge\<close>

lemma loadGlobals_returns:
  "loadGlobals_frame h p x st = (Inr fr, st') \<Longrightarrow>
     loadGlobals h p x st = (Inr (commonGlobals fr), st')"
  by (simp add: loadGlobals_def)

lemma frame_result_collapse:
  "\<not> isl (fst X) \<Longrightarrow> X = (Inr (projr (fst X)), snd X)"
  by (cases X; cases "fst X") auto

text \<open>
  C2, as the code has it. \<open>loadGlobals\<close> returns the merge of the accumulated globals
  into the common context. A key under which the globals hold a leaf has that leaf in
  the returned record; a key that the globals do not have keeps the value of the common
  context; a key under which the globals hold a plain record and the common context a
  record (as under \<open>node\<close> and \<open>constants\<close>) has the two merged, key by key, not the
  record of the globals alone.
\<close>

theorem loadGlobals_final_merge:
  assumes "loadGlobals_frame h p x st = (Inr fr, st')"
  shows "\<exists>config gp.
           (if isConfig x then Inr x else fst (loadConfig h p st)) = Inr config
         \<and> acc fr = Obj Plain gp \<and> distinct (map fst gp)
         \<and> (let cg = buildCommonGlobals h p config (loglevel h);
                 r = merge cg (Obj Plain gp)
             in fst (loadGlobals h p x st) = Inr r
                \<and> (\<forall>k v. map_of gp k = Some v \<and> leafAt k v \<longrightarrow> js_get r k = v)
                \<and> (\<forall>k. map_of gp k = None \<longrightarrow> js_get r k = js_get cg k)
                \<and> (\<forall>k sp kd dp.
                      k \<noteq> ''__proto__'' \<and> map_of gp k = Some (Obj Plain sp)
                      \<and> js_get cg k = Obj kd dp
                      \<longrightarrow> js_get r k = Obj kd (baseMerge dp sp)))"
proof -
  from loadGlobals_frame_shape [OF assms] obtain config apps fr1 where
    cfg: "(if isConfig x then Inr x else fst (loadConfig h p st)) = Inr config"
    and red: "reduce_apps h
              \<lparr>commonGlobals = buildCommonGlobals h p config (loglevel h), acc = Obj Plain []\<rparr>
              apps = Inr fr1"
    and fr: "fr = fr1\<lparr>commonGlobals := merge (commonGlobals fr1) (acc fr1)\<rparr>"
    by blast
  let ?cg = "buildCommonGlobals h p config (loglevel h)"
  have cg1: "commonGlobals fr1 = ?cg" using reduce_apps_commonGlobals [OF red] by simp
  obtain gp where gp: "acc fr1 = Obj Plain gp" and dist: "distinct (map fst gp)"
    using reduce_apps_distinct [OF red, of Plain "[]"] by auto
  obtain cp where cp: "?cg = Obj Plain cp" by (simp add: buildCommonGlobals_def)
  have ret: "fst (loadGlobals h p x st) = Inr (merge ?cg (Obj Plain gp))"
    using loadGlobals_returns [OF assms] fr cg1 gp by simp
  have leaf: "js_get (merge ?cg (Obj Plain gp)) k = v"
    if "map_of gp k = Some v" "leafAt k v" for k v
    unfolding cp by (rule merge_leaf [OF dist that])
  have kept: "js_get (merge ?cg (Obj Plain gp)) k = js_get ?cg k" if "map_of gp k = None" for k
    unfolding cp
    by (rule merge_untouched) (use that in \<open>simp add: map_of_eq_None_iff\<close>)
  have rec: "js_get (merge ?cg (Obj Plain gp)) k = Obj kd dp'"
    if "k \<noteq> ''__proto__''" "map_of gp k = Some (Obj Plain sp)" "js_get ?cg k = Obj kd dp"
       "dp' = baseMerge dp sp" for k sp kd dp dp'
    using baseMerge_records [OF dist that(2) _ that(1), of cp kd dp] that(3,4)
    unfolding cp by simp
  show ?thesis
    using cfg gp dist ret leaf kept rec fr
    by (intro exI [of _ config] exI [of _ gp]) (simp add: Let_def)
qed

theorem loadGlobals_final_merge_witness:
  "js_get (projr (fst (loadGlobals example_host example_props
                         (example_config [example_app ''app2'' 2, example_app ''app3'' 3]
                            ''info'' ''json'')
                         fresh_process))) ''x'' = Num 1
   \<and> js_get (projr (fst (loadGlobals example_host example_props
                           (example_config [example_app ''app2'' 2, example_app ''app3'' 3]
                              ''info'' ''json'')
                           fresh_process))) ''config''
       = example_config [example_app ''app2'' 2, example_app ''app3'' 3] ''info'' ''json''
   \<and> js_get (projr (fst (loadGlobals example_host example_props
                           (example_config [example_app ''app2'' 2, example_app ''app3'' 3]
                              ''info'' ''json'')
                           fresh_process))) ''constants''
       = Obj Plain [(''workingDirectory'', Str ''/app''), (''environment'', Str ''unit-test''),
                    (''extra'', Num 1)]"
proof -
  let ?cfg = "example_config [example_app ''app2'' 2, example_app ''app3'' 3] ''info'' ''json''"
  let ?X = "loadGlobals_frame example_host example_props ?cfg fresh_process"
  let ?R = "projr (fst (loadGlobals example_host example_props ?cfg fresh_process))"
  have "\<not> isl (fst ?X)" by code_simp
  then have ok: "?X = (Inr (projr (fst ?X)), snd ?X)" by (rule frame_result_collapse)
  have accv: "acc (projr (fst ?X))
                = Obj Plain [(''x'', Num 1), (''constants'', Obj Plain [(''extra'', Num 1)])]"
    by code_simp
  have isc: "isConfig ?cfg" by code_simp
  have cgc: "js_get (buildCommonGlobals example_host example_props ?cfg (loglevel example_host))
               ''constants''
             = Obj Plain [(''workingDirectory'', Str ''/app''), (''environment'', Str ''unit-test'')]"
    by code_simp
  have cgf: "js_get (buildCommonGlobals example_host example_props ?cfg (loglevel example_host))
               ''config'' = ?cfg"
    by (simp add: buildCommonGlobals_def own_or_inherited_def)
  have bm: "baseMerge [(''workingDirectory'', Str ''/app''), (''environment'', Str ''unit-test'')]
              [(''extra'', Num 1)]
            = [(''workingDirectory'', Str ''/app''), (''environment'', Str ''unit-test''),
               (''extra'', Num 1)]"
    by code_simp
  from loadGlobals_final_merge [OF ok] obtain config gp where
    cfg: "(if isConfig ?cfg then Inr ?cfg
           else fst (loadConfig example_host example_props fresh_process)) = Inr config"
    and gp: "acc (projr (fst ?X)) = Obj Plain gp"
    and all: "let cg = buildCommonGlobals example_host example_props config (loglevel example_host);
                  r = merge cg (Obj Plain gp)
              in fst (loadGlobals example_host example_props ?cfg fresh_process) = Inr r
                 \<and> (\<forall>k v. map_of gp k = Some v \<and> leafAt k v \<longrightarrow> js_get r k = v)
                 \<and> (\<forall>k. map_of gp k = None \<longrightarrow> js_get r k = js_get cg k)
                 \<and> (\<forall>k sp kd dp.
                       k \<noteq> ''__proto__'' \<and> map_of gp k = Some (Obj Plain sp)
                       \<and> js_get cg k = Obj kd dp
                       \<longrightarrow> js_get r k = Obj kd (baseMerge dp sp))"
    by blast
  have config: "config = ?cfg" using cfg isc by simp
  have gpv: "gp = [(''x'', Num 1), (''constants'', Obj Plain [(''extra'', Num 1)])]"
    using gp accv by simp
  let ?cg = "buildCommonGlobals example_host example_props ?cfg (loglevel example_host)"
  let ?r = "merge ?cg (Obj Plain gp)"
  from all have ret: "?R = ?r"
    and leaf: "\<And>k v. map_of gp k = Some v \<Longrightarrow> leafAt k v \<Longrightarrow> js_get ?r k = v"
    and kept: "\<And>k. map_of gp k = None \<Longrightarrow> js_get ?r k = js_get ?cg k"
    and recs: "\<And>k sp kd dp. k \<noteq> ''__proto__'' \<Longrightarrow> map_of gp k = Some (Obj Plain sp)
                 \<Longrightarrow> js_get ?cg k = Obj kd dp \<Longrightarrow> js_get ?r k = Obj kd (baseMerge dp sp)"
    unfolding config Let_def by simp_all
  have "js_get ?r ''x'' = Num 1"
    by (rule leaf) (simp_all add: gpv leafAt_def)
  moreover have "js_get ?r ''config'' = ?cfg"
    using kept [of "''config''"] cgf by (simp add: gpv)
  moreover have "js_get ?r ''constants''
       = Obj Plain [(''workingDirectory'', Str ''/app''), (''environment'', Str ''unit-test''),
                    (''extra'', Num 1)]"
    using recs [of "''constants''" "[(''extra'', Num 1)]", OF _ _ cgc] bm by (simp add: gpv)
  ultimately show ?thesis unfolding ret by simp
qed

text \<open>
  C2, as the claim has it, fails: an app contributes \<open>{constants: {extra: 1}}\<close>, so the
  globals share the key \<open>constants\<close> with the common context; the returned record has
  under \<open>constants\<close> the working directory, the environment and \<open>extra\<close>, not the value
  of the globals.
\<close>

theorem loadGlobals_final_merge_counterexample:
  "js_get (acc (projr (fst (loadGlobals_frame example_host example_props
                              (example_config [example_app ''app3'' 3] ''info'' ''json'')
                              fresh_process)))) ''constants''
     = Obj Plain [(''extra'', Num 1)]
   \<and> js_get (buildCommonGlobals example_host example_props
               (example_config [example_app ''app3'' 3] ''info'' ''json'')
               (loglevel example_host)) ''constants''
     = Obj Plain [(''workingDirectory'', Str ''/app''), (''environment'', Str ''unit-test'')]
   \<and> js_get (projr (fst (loadGlobals example_host example_props
                           (example_config [example_app ''app3'' 3] ''info'' ''json'')
                           fresh_process))) ''constants''
     = Obj Plain [(''workingDirectory'', Str ''/app''), (''environment'', Str ''unit-test''),
                  (''extra'', Num 1)]
   \<and> js_get (projr (fst (loadGlobals example_host example_props
                           (example_config [example_app ''app3'' 3] ''info'' ''json'')
                           fresh_process))) ''constants''
     \<noteq> Obj Plain [(''extra'', Num 1)]"
  by code_simp




subsection \<open>Further properties of loadGlobals\<close>

text \<open>
  A config that is handed to \<open>loadGlobals\<close> is used as it is: nothing is resolved on the
  file system, the working directory stays, and the cell of the config loader is not
  touched.
\<close>

theorem loadGlobals_config_given:
  assumes "isConfig x"
  shows "effects (snd (loadGlobals h p x st)) = effects st
         \<and> cwd (snd (loadGlobals h p x st)) = cwd st
         \<and> configCell (snd (loadGlobals h p x st)) = configCell st"
  using assms
  by (auto simp: loadGlobals_def loadGlobals_frame_def Let_def
      split: prod.splits sum.splits)

theorem loadGlobals_config_given_witness:
  "effects (snd (loadGlobals example_host example_props
                   (example_config [example_app ''app1'' 1] ''info'' ''json'') fresh_process)) = []
   \<and> cwd (snd (loadGlobals example_host example_props
                  (example_config [example_app ''app1'' 1] ''info'' ''json'') fresh_process)) = ''/''
   \<and> configCell (snd (loadGlobals example_host example_props
                  (example_config [example_app ''app1'' 1] ''info'' ''json'') fresh_process)) = None"
proof -
  have a: "isConfig (example_config [example_app ''app1'' 1] ''info'' ''json'')" by code_simp
  show ?thesis
    using loadGlobals_config_given [OF a, of example_host example_props fresh_process]
    by (simp add: fresh_process_def)
qed

text \<open>
  A source property that is \<open>undefined\<close> does not override: the destination reads under
  that key what it read before.
\<close>

theorem merge_skips_undefined:
  assumes "distinct (map fst sp)" and "map_of sp k = Some Undefined"
  shows "js_get (merge (Obj kd dp) (Obj kd' sp)) k = js_get (Obj kd dp) k"
  using baseMerge_key [OF assms, of dp] by (simp add: Let_def)

theorem merge_skips_undefined_witness:
  "js_get (merge (Obj Plain [(''x'', Num 2)]) (Obj Plain [(''x'', Undefined)])) ''x'' = Num 2"
  using merge_skips_undefined [of "[(''x'', Undefined)]" "''x''" Plain "[(''x'', Num 2)]" Plain]
  by (simp add: own_or_inherited_def)

text \<open>
  A factory that fails aborts the fold: the error of the first app whose contribution
  fails is the error of the \<open>reduce\<close>, whatever apps follow.
\<close>

theorem reduce_apps_failed_factory:
  assumes "reduce_apps h fr pre = Inr fr1"
      and "getGlobals h (commonGlobals fr) app = Inl e"
  shows "reduce_apps h fr (pre @ app # post) = Inl e"
  using assms reduce_apps_commonGlobals [OF assms(1)]
  by (simp add: reduce_apps_append reduce_step_def)

theorem reduce_apps_failed_factory_witness:
  "reduce_apps example_host \<lparr>commonGlobals = Obj Plain [], acc = Obj Plain []\<rparr>
     [example_app ''app1'' 1, example_app ''app9'' 9, example_app ''app2'' 2]
   = Inl (Error ''rejected'')"
proof -
  have a: "reduce_apps example_host \<lparr>commonGlobals = Obj Plain [], acc = Obj Plain []\<rparr>
             [example_app ''app1'' 1]
           = Inr \<lparr>commonGlobals = Obj Plain [], acc = Obj Plain [(''x'', Num 2), (''y'', Num 3)]\<rparr>"
    by code_simp
  have b: "getGlobals example_host
             (commonGlobals \<lparr>commonGlobals = Obj Plain [], acc = Obj Plain []\<rparr>)
             (example_app ''app9'' 9) = Inl (Error ''rejected'')"
    by code_simp
  show ?thesis
    using reduce_apps_failed_factory [OF a b, of "[example_app ''app2'' 2]"] by simp
qed

text \<open>
  A config that does not validate aborts \<open>loadGlobals\<close> before the logger is configured:
  the error is the validation error and the process is as it was.
\<close>

theorem loadGlobals_invalid_config:
  assumes "isConfig x" and "validateConfig x = Inl e"
  shows "loadGlobals h p x st = (Inl e, st)"
  using assms by (simp add: loadGlobals_def loadGlobals_frame_def)

theorem loadGlobals_invalid_config_witness:
  "loadGlobals example_host example_props
     (Obj Plain [(''environment'', Str ''unit-test''),
                 (CoreNamespace_root, example_root [] ''info'' ''json'')])
     fresh_process
   = (Inl (Error ''systemName was not found in config''), fresh_process)"
proof -
  have a: "isConfig (Obj Plain [(''environment'', Str ''unit-test''),
                 (CoreNamespace_root, example_root [] ''info'' ''json'')])" by code_simp
  have b: "validateConfig (Obj Plain [(''environment'', Str ''unit-test''),
                 (CoreNamespace_root, example_root [] ''info'' ''json'')])
           = Inl (Error ''systemName was not found in config'')" by code_simp
  show ?thesis by (rule loadGlobals_invalid_config [OF a b])
qed

subsection \<open>merge: leaves below the first level\<close>

lemma no_array_on_empty: "no_array_on [] p"
  by (cases p) (simp_all add: own_or_inherited_def inherited_def)

text \<open>
  The merge is deep. A leaf that the source holds at the end of a path of keys, below
  plain records, is what the destination reads at the end of that path after the merge,
  whatever it held there before, as long as it held no array on the way.
\<close>

theorem merge_deep_leaf:
  assumes "holds_leaf sp p v" and "no_array_on dp p"
  shows "path_get (merge (Obj kd dp) (Obj Plain sp)) p = v"
proof -
  have "path_get (Obj kd (baseMerge dp sp)) p = v"
    using assms
  proof (induction sp p v arbitrary: dp kd rule: holds_leaf.induct)
    case (1 sp v)
    then show ?case by simp
  next
    case (2 sp k v)
    then show ?case by (simp add: baseMerge_leaf)
  next
    case (3 sp k k' ks v)
    from "3.prems"(1) obtain sp' where
      dist: "distinct (map fst sp)" and k: "k \<noteq> ''__proto__''"
      and at: "map_of sp k = Some (Obj Plain sp')" and deeper: "holds_leaf sp' (k' # ks) v"
      by (auto split: option.splits jsval.splits objkind.splits)
    let ?ov = "safeGet (own_or_inherited dp k) k"
    have sg: "safeGet (Obj Plain sp') k = Obj Plain sp'" using k by (simp add: safeGet_def)
    have key: "own_or_inherited (baseMerge dp sp) k = baseMergeDeep ?ov (Obj Plain sp')"
      using baseMerge_key [OF dist at, of dp] sg
      by (auto simp: Let_def split: jsval.splits)
    have clone: "path_get (Obj Plain (baseMerge [] sp')) (k' # ks) = v"
      by (rule "3.IH" [OF at refl refl deeper no_array_on_empty])
    show ?case
    proof (cases "own_or_inherited dp k")
      case (Obj kd' dp')
      then have ov: "?ov = Obj kd' dp'" using k by (simp add: safeGet_def)
      have na: "no_array_on dp' (k' # ks)" using "3.prems"(2) Obj by simp
      have "path_get (Obj kd' (baseMerge dp' sp')) (k' # ks) = v"
        by (rule "3.IH" [OF at refl refl deeper na])
      then show ?thesis by (simp add: key ov)
    next
      case (Arr ds)
      then show ?thesis using "3.prems"(2) by simp
    qed (use clone in \<open>simp_all add: key safeGet_def\<close>)
  qed
  then show ?thesis by simp
qed

theorem merge_deep_leaf_witness:
  "path_get
     (merge (Obj Plain [(''a'', Obj Plain [(''b'', Num 1), (''c'', Num 2)])])
            (Obj Plain [(''a'', Obj Plain [(''b'', Num 5)])]))
     [''a'', ''b''] = Num 5
   \<and> merge (Obj Plain [(''a'', Obj Plain [(''b'', Num 1), (''c'', Num 2)])])
           (Obj Plain [(''a'', Obj Plain [(''b'', Num 5)])])
       = Obj Plain [(''a'', Obj Plain [(''b'', Num 5), (''c'', Num 2)])]"
proof -
  have a: "holds_leaf [(''a'', Obj Plain [(''b'', Num 5)])] [''a'', ''b''] (Num 5)"
    by (simp add: leafAt_def)
  have b: "no_array_on [(''a'', Obj Plain [(''b'', Num 1), (''c'', Num 2)])] [''a'', ''b'']"
    by (simp add: own_or_inherited_def)
  have c: "merge (Obj Plain [(''a'', Obj Plain [(''b'', Num 1), (''c'', Num 2)])])
             (Obj Plain [(''a'', Obj Plain [(''b'', Num 5)])])
           = Obj Plain [(''a'', Obj Plain [(''b'', Num 5), (''c'', Num 2)])]"
    by code_simp
  show ?thesis
    using merge_deep_leaf [OF a b, of Plain] c by simp
qed

end
